theory Spec2Isabelle
  imports Main
begin

section \<open>Errors, panics and the call context\<close>

text \<open>
  The middleware returns gRPC status errors (\<^verbatim>\<open>status.Error(codes.X, msg)\<close>). A Go
  run-time panic (a slice expression out of range, a failed type assertion) is a
  separate branch of the error type, so that every way the source can leave a
  function is a value of the model.
\<close>

datatype codes = Unauthenticated | InvalidArgument | ResourceExhausted

datatype panic =
    SliceBoundsOutOfRange nat nat
  | InterfaceConversion string

datatype error = Status codes string | Panic panic

text \<open>
  A dynamically typed Go value (\<^verbatim>\<open>any\<close>), as far as the interceptors look at it:
  a \<^verbatim>\<open>string\<close>, a \<^verbatim>\<open>[]string\<close>, or a value of some other dynamic type.
  A missing map key reads as the nil interface, modelled by \<open>None\<close>.
\<close>

datatype any = AString string | AStrings "string list" | AOther

type_synonym MD = "string \<Rightarrow> string list"

text \<open>
  \<^verbatim>\<open>context.Context\<close>: the incoming gRPC metadata (absent when the call carries
  none) and the values stored with \<^verbatim>\<open>context.WithValue\<close>. The two are different
  stores of the same context.
\<close>

record Context =
  incomingMD :: "MD option"
  ctxValues :: "string \<Rightarrow> any option"

definition FromIncomingContext :: "Context \<Rightarrow> MD option" where
  "FromIncomingContext ctx = incomingMD ctx"

definition Get :: "MD \<Rightarrow> string \<Rightarrow> string list" where
  "Get md k = md k"

definition WithValue :: "Context \<Rightarrow> string \<Rightarrow> any \<Rightarrow> Context" where
  "WithValue ctx k v = ctx\<lparr>ctxValues := (ctxValues ctx)(k \<mapsto> v)\<rparr>"

definition Value :: "Context \<Rightarrow> string \<Rightarrow> any option" where
  "Value ctx k = ctxValues ctx k"

record UnaryServerInfo =
  FullMethod :: string

text \<open>
  The next handler of the chain. It runs in some world \<open>'w\<close> that it may change, so
  that "the handler was not invoked" is visible: the world is returned as it was.
\<close>

type_synonym ('req, 'resp, 'w) UnaryHandler =
  "Context \<Rightarrow> 'req \<Rightarrow> 'w \<Rightarrow> (error + 'resp) \<times> 'w"

section \<open>pkg/common/user\_id.go\<close>

definition UserIDKey :: string where
  "UserIDKey = ''user_id''"

definition GetUserID :: "Context \<Rightarrow> string" where
  "GetUserID ctx =
     (case FromIncomingContext ctx of
        None \<Rightarrow> ''''
      | Some md \<Rightarrow>
          (let values = Get md UserIDKey in
           if length values = 0 then '''' else values ! 0))"

section \<open>pkg/interceptors/auth.go\<close>

text \<open>
  \<^verbatim>\<open>Validate(token) (*jwt.MapClaims, error)\<close>: the validator is a parameter of the
  interceptor (an interface in the source). Its error is carried as its message.
\<close>

type_synonym MapClaims = "string \<Rightarrow> any option"
type_synonym JWTValidator = "string \<Rightarrow> string + MapClaims"

definition HasPrefix :: "string \<Rightarrow> string \<Rightarrow> bool" where
  "HasPrefix s p = (length p \<le> length s \<and> take (length p) s = p)"

text \<open>The slice expression \<^verbatim>\<open>s[n:]\<close>: it panics when \<open>n\<close> exceeds the length.\<close>

definition sliceFrom :: "string \<Rightarrow> nat \<Rightarrow> error + string" where
  "sliceFrom s n =
     (if length s < n then Inl (Panic (SliceBoundsOutOfRange n (length s)))
      else Inr (drop n s))"

text \<open>The type assertions \<^verbatim>\<open>v.(string)\<close> and \<^verbatim>\<open>v.([]string)\<close> of the claim at a key.\<close>

definition assertString :: "MapClaims \<Rightarrow> string \<Rightarrow> error + string" where
  "assertString claims k =
     (case claims k of
        Some (AString s) \<Rightarrow> Inr s
      | _ \<Rightarrow> Inl (Panic (InterfaceConversion k)))"

definition assertStrings :: "MapClaims \<Rightarrow> string \<Rightarrow> error + string list" where
  "assertStrings claims k =
     (case claims k of
        Some (AStrings ss) \<Rightarrow> Inr ss
      | _ \<Rightarrow> Inl (Panic (InterfaceConversion k)))"

text \<open>
  \<^verbatim>\<open>AuthInterceptor(logger, jwtValidator)\<close>. The logger only writes log records
  and is left out. Statement by statement: read the metadata, read the
  \<^verbatim>\<open>authorization\<close> values, test \<^verbatim>\<open>strings.HasPrefix(token, "Bearer")\<close>, slice
  \<^verbatim>\<open>token[7:]\<close>, validate, store the three claims with their type assertions, call
  the handler.
\<close>

definition AuthInterceptor ::
  "JWTValidator \<Rightarrow> Context \<Rightarrow> 'req \<Rightarrow> UnaryServerInfo \<Rightarrow> ('req, 'resp, 'w) UnaryHandler
     \<Rightarrow> 'w \<Rightarrow> (error + 'resp) \<times> 'w" where
  "AuthInterceptor jwtValidator ctx req info handler w =
     (case FromIncomingContext ctx of
        None \<Rightarrow> (Inl (Status Unauthenticated ''missing metadata''), w)
      | Some md \<Rightarrow>
          (let tokens = Get md ''authorization'' in
           if length tokens = 0
           then (Inl (Status Unauthenticated ''missing authorization header''), w)
           else
             (let token = tokens ! 0 in
              if \<not> HasPrefix token ''Bearer''
              then (Inl (Status Unauthenticated ''invalid authorization format''), w)
              else
                (case sliceFrom token 7 of
                   Inl p \<Rightarrow> (Inl p, w)
                 | Inr token \<Rightarrow>
                     (case jwtValidator token of
                        Inl err \<Rightarrow> (Inl (Status Unauthenticated (''invalid token: '' @ err)), w)
                      | Inr claims \<Rightarrow>
                          (case assertString claims ''sub'' of
                             Inl p \<Rightarrow> (Inl p, w)
                           | Inr sub \<Rightarrow>
                               (let ctx = WithValue ctx ''user_id'' (AString sub) in
                                case assertStrings claims ''roles'' of
                                  Inl p \<Rightarrow> (Inl p, w)
                                | Inr roles \<Rightarrow>
                                    (let ctx = WithValue ctx ''roles'' (AStrings roles) in
                                     case assertStrings claims ''permissions'' of
                                       Inl p \<Rightarrow> (Inl p, w)
                                     | Inr permissions \<Rightarrow>
                                         (let ctx = WithValue ctx ''permissions''
                                                      (AStrings permissions) in
                                          handler ctx req w)))))))))"

section \<open>The token bucket\<close>

text \<open>
  Modelled from the spec: the token-bucket primitive \<^verbatim>\<open>rate.Limiter\<close> of
  golang.org/x/time/rate is not among the sources. The specification gives its
  contract: it holds a rate (tokens per second) and a burst capacity; \<^verbatim>\<open>Allow()\<close>
  consumes one token if one is available and says whether the call may proceed;
  at most burst-many calls succeed instantaneously and tokens are refilled
  continuously at the rate. Time is in nanoseconds (as \<^verbatim>\<open>time.Duration\<close>), the
  rate a whole number of tokens per second, and the bucket counts billionths of
  a token so that the refill is exact. A new limiter starts full.
\<close>

abbreviation Second :: int where
  "Second \<equiv> 1000000000"

abbreviation Minute :: int where
  "Minute \<equiv> 60000000000"

record Limiter =
  lim_limit :: int
  lim_burst :: int
  lim_tokens :: int
  lim_last :: int

definition NewLimiter :: "int \<Rightarrow> int \<Rightarrow> Limiter" where
  "NewLimiter r b = \<lparr>lim_limit = r, lim_burst = b, lim_tokens = b * Second, lim_last = 0\<rparr>"

definition refill :: "int \<Rightarrow> Limiter \<Rightarrow> int" where
  "refill now l =
     min (lim_burst l * Second) (lim_tokens l + lim_limit l * max 0 (now - lim_last l))"

definition allowAt :: "int \<Rightarrow> Limiter \<Rightarrow> bool \<times> Limiter" where
  "allowAt now l =
     (let t = refill now l in
      if Second \<le> t
      then (True, l\<lparr>lim_tokens := t - Second, lim_last := max now (lim_last l)\<rparr>)
      else (False, l))"

section \<open>pkg/interceptors/rate\_limiter.go\<close>

text \<open>
  The interceptor holds pointers: \<^verbatim>\<open>*rate.Limiter\<close> and \<^verbatim>\<open>*userLimiterStruct\<close>.
  Pointers are addresses into two object stores, so that two names for one
  limiter (\<^verbatim>\<open>limiter := m.defaultLimiter\<close>) consume from one bucket. The state is
  the interceptor struct together with the objects it can reach.
\<close>

record userLimiterStruct =
  limiter :: nat
  lastUsed :: int

record MethodRateLimiterInterceptor =
  methodLimiters :: "string \<Rightarrow> nat option"
  defaultLimiter :: nat
  perUserLimiters :: "(string \<times> nat) list"
  perUserRate :: int
  perUserBurst :: int
  cleanupInterval :: int
  maxAge :: int
  limiterObjs :: "nat \<Rightarrow> Limiter"
  userObjs :: "nat \<Rightarrow> userLimiterStruct"
  nextLimiter :: nat
  nextUser :: nat

text \<open>\<^verbatim>\<open>rate.NewLimiter(r, b)\<close> allocates a limiter object and returns its address.\<close>

definition allocLimiter ::
  "int \<Rightarrow> int \<Rightarrow> MethodRateLimiterInterceptor \<Rightarrow> nat \<times> MethodRateLimiterInterceptor" where
  "allocLimiter r b m =
     (nextLimiter m,
      m\<lparr>limiterObjs := (limiterObjs m)(nextLimiter m := NewLimiter r b),
        nextLimiter := Suc (nextLimiter m)\<rparr>)"

definition allocUser ::
  "userLimiterStruct \<Rightarrow> MethodRateLimiterInterceptor \<Rightarrow> nat \<times> MethodRateLimiterInterceptor" where
  "allocUser u m =
     (nextUser m,
      m\<lparr>userObjs := (userObjs m)(nextUser m := u), nextUser := Suc (nextUser m)\<rparr>)"

text \<open>\<^verbatim>\<open>p.Allow()\<close> on the limiter object at address \<open>p\<close>, at time \<open>now\<close>.\<close>

definition Allow ::
  "int \<Rightarrow> nat \<Rightarrow> MethodRateLimiterInterceptor \<Rightarrow> bool \<times> MethodRateLimiterInterceptor" where
  "Allow now p m =
     (case allowAt now (limiterObjs m p) of
        (ok, l) \<Rightarrow> (ok, m\<lparr>limiterObjs := (limiterObjs m)(p := l)\<rparr>))"

text \<open>
  \<^verbatim>\<open>NewMethodRateLimiterInterceptor\<close>, on a store with no objects. The sweeper it
  starts (\<^verbatim>\<open>go m.cleanupOldUsers()\<close>) is modelled by its ticks, below.
\<close>

definition emptyStore :: MethodRateLimiterInterceptor where
  "emptyStore =
     \<lparr>methodLimiters = Map.empty, defaultLimiter = 0, perUserLimiters = [],
      perUserRate = 0, perUserBurst = 0, cleanupInterval = 0, maxAge = 0,
      limiterObjs = (\<lambda>_. NewLimiter 0 0),
      userObjs = (\<lambda>_. \<lparr>limiter = 0, lastUsed = 0\<rparr>),
      nextLimiter = 0, nextUser = 0\<rparr>"

definition NewMethodRateLimiterInterceptor :: "int \<Rightarrow> int \<Rightarrow> MethodRateLimiterInterceptor" where
  "NewMethodRateLimiterInterceptor defaultLimit defaultBurst =
     (case allocLimiter defaultLimit defaultBurst emptyStore of
        (p, m) \<Rightarrow>
          m\<lparr>methodLimiters := Map.empty,
            defaultLimiter := p,
            perUserLimiters := [],
            cleanupInterval := 5 * Minute,
            maxAge := 15 * Minute\<rparr>)"

definition SetMethodLimit ::
  "string \<Rightarrow> int \<Rightarrow> int \<Rightarrow> MethodRateLimiterInterceptor \<Rightarrow> MethodRateLimiterInterceptor" where
  "SetMethodLimit method lim b m =
     (case allocLimiter lim b m of
        (p, m) \<Rightarrow> m\<lparr>methodLimiters := (methodLimiters m)(method \<mapsto> p)\<rparr>)"

definition SetPerUserLimit ::
  "int \<Rightarrow> int \<Rightarrow> MethodRateLimiterInterceptor \<Rightarrow> MethodRateLimiterInterceptor" where
  "SetPerUserLimit lim b m = m\<lparr>perUserRate := lim, perUserBurst := b\<rparr>"

text \<open>
  Lines 93 to 98 of \<^verbatim>\<open>Interceptor\<close>: the limiter of the method tier, the default
  limiter unless the table has one for the method.
\<close>

definition methodTierLimiter :: "MethodRateLimiterInterceptor \<Rightarrow> string \<Rightarrow> nat" where
  "methodTierLimiter m method =
     (let lim = defaultLimiter m in
      case methodLimiters m method of
        Some methodLimiter \<Rightarrow> methodLimiter
      | None \<Rightarrow> lim)"

text \<open>
  Lines 111 to 124: look the caller up; when absent, look it up again (under the
  write lock in the source) and, when still absent, build a new
  \<^verbatim>\<open>userLimiterStruct\<close> with a new limiter. The source has no statement that
  stores the new struct in \<^verbatim>\<open>m.perUserLimiters\<close>, and neither has the model.
\<close>

definition perUserEntry ::
  "string \<Rightarrow> int \<Rightarrow> MethodRateLimiterInterceptor \<Rightarrow> nat \<times> MethodRateLimiterInterceptor" where
  "perUserEntry userID now m =
     (case map_of (perUserLimiters m) userID of
        Some user \<Rightarrow> (user, m)
      | None \<Rightarrow>
          (case map_of (perUserLimiters m) userID of
             Some user \<Rightarrow> (user, m)
           | None \<Rightarrow>
               (case allocLimiter (perUserRate m) (perUserBurst m) m of
                  (p, m) \<Rightarrow> allocUser \<lparr>limiter = p, lastUsed = now\<rparr> m)))"

text \<open>Line 126: \<^verbatim>\<open>user.lastUsed = time.Now()\<close>, through the pointer.\<close>

definition touchUser :: "nat \<Rightarrow> int \<Rightarrow> MethodRateLimiterInterceptor \<Rightarrow> MethodRateLimiterInterceptor" where
  "touchUser user now m = m\<lparr>userObjs := (userObjs m)(user := (userObjs m user)\<lparr>lastUsed := now\<rparr>)\<rparr>"

text \<open>
  Lines 104 to 133: the per-caller tier and the call of the handler, for a call
  that happens at time \<open>now\<close> (the value of \<^verbatim>\<open>time.Now()\<close> during the call).
\<close>

definition perUserTier ::
  "int \<Rightarrow> Context \<Rightarrow> 'req \<Rightarrow> ('req, 'resp, 'w) UnaryHandler
     \<Rightarrow> MethodRateLimiterInterceptor \<times> 'w \<Rightarrow> (error + 'resp) \<times> MethodRateLimiterInterceptor \<times> 'w" where
  "perUserTier now ctx req handler mw =
     (case mw of (m, w) \<Rightarrow>
      if perUserRate m > 0
      then
        (let userID = GetUserID ctx in
         if userID = ''''
         then (Inl (Status InvalidArgument ''user_id is required''), m, w)
         else
           (case perUserEntry userID now m of (user, m) \<Rightarrow>
            let m = touchUser user now m in
            case Allow now (limiter (userObjs m user)) m of (ok, m) \<Rightarrow>
            if \<not> ok
            then (Inl (Status ResourceExhausted ''per-user rate limit exceeded''), m, w)
            else (case handler ctx req w of (r, w) \<Rightarrow> (r, m, w))))
      else (case handler ctx req w of (r, w) \<Rightarrow> (r, m, w)))"

text \<open>
  The interceptor function returned by \<^verbatim>\<open>Interceptor()\<close>: the global tier
  (line 88), the method tier (lines 93 to 102), then the per-caller tier.
\<close>

definition Interceptor ::
  "int \<Rightarrow> Context \<Rightarrow> 'req \<Rightarrow> UnaryServerInfo \<Rightarrow> ('req, 'resp, 'w) UnaryHandler
     \<Rightarrow> MethodRateLimiterInterceptor \<times> 'w \<Rightarrow> (error + 'resp) \<times> MethodRateLimiterInterceptor \<times> 'w" where
  "Interceptor now ctx req info handler mw =
     (case mw of (m, w) \<Rightarrow>
      case Allow now (defaultLimiter m) m of (ok, m) \<Rightarrow>
      if \<not> ok
      then (Inl (Status ResourceExhausted ''global rate limit exceeded''), m, w)
      else
        (case Allow now (methodTierLimiter m (FullMethod info)) m of (ok, m) \<Rightarrow>
         if \<not> ok
         then (Inl (Status ResourceExhausted ''method rate limit exceeded''), m, w)
         else perUserTier now ctx req handler (m, w)))"

text \<open>
  One tick of \<^verbatim>\<open>cleanupOldUsers\<close> at time \<open>now\<close>: collect the stale callers, then
  \<^verbatim>\<open>if len(toDelete) > 0 { continue }\<close>, then delete the collected callers.
\<close>

definition staleUsers :: "int \<Rightarrow> MethodRateLimiterInterceptor \<Rightarrow> string list" where
  "staleUsers now m =
     map fst (filter (\<lambda>(userID, user). now - lastUsed (userObjs m user) > maxAge m)
                (perUserLimiters m))"

definition deleteUser :: "string \<Rightarrow> (string \<times> nat) list \<Rightarrow> (string \<times> nat) list" where
  "deleteUser userID t = filter (\<lambda>(k, v). k \<noteq> userID) t"

definition cleanupTick :: "int \<Rightarrow> MethodRateLimiterInterceptor \<Rightarrow> MethodRateLimiterInterceptor" where
  "cleanupTick now m =
     (let toDelete = staleUsers now m in
      if length toDelete > 0 then m
      else m\<lparr>perUserLimiters := fold deleteUser toDelete (perUserLimiters m)\<rparr>)"

text \<open>The loop \<^verbatim>\<open>for range ticker.C\<close>, over the ticks that have happened so far.\<close>

fun cleanupOldUsers :: "int list \<Rightarrow> MethodRateLimiterInterceptor \<Rightarrow> MethodRateLimiterInterceptor" where
  "cleanupOldUsers [] m = m"
| "cleanupOldUsers (now # ticks) m = cleanupOldUsers ticks (cleanupTick now m)"

section \<open>Chaining and driving the interceptors\<close>

text \<open>
  The chain of the two stages: authentication first, and admission as the handler
  that authentication calls with the context it has built.
\<close>

definition Chain ::
  "JWTValidator \<Rightarrow> int \<Rightarrow> Context \<Rightarrow> 'req \<Rightarrow> UnaryServerInfo \<Rightarrow> ('req, 'resp, 'w) UnaryHandler
     \<Rightarrow> MethodRateLimiterInterceptor \<times> 'w \<Rightarrow> (error + 'resp) \<times> MethodRateLimiterInterceptor \<times> 'w" where
  "Chain jwtValidator now ctx req info handler mw =
     AuthInterceptor jwtValidator ctx req info
       (\<lambda>ctx' req'. Interceptor now ctx' req' info handler) mw"

text \<open>Calls made one after the other at the same instant \<open>now\<close>, one per context.\<close>

fun instantCalls ::
  "int \<Rightarrow> Context list \<Rightarrow> 'req \<Rightarrow> UnaryServerInfo \<Rightarrow> ('req, 'resp, 'w) UnaryHandler
     \<Rightarrow> MethodRateLimiterInterceptor \<times> 'w
     \<Rightarrow> (error + 'resp) list \<times> MethodRateLimiterInterceptor \<times> 'w" where
  "instantCalls now [] req info handler mw = ([], mw)"
| "instantCalls now (ctx # ctxs) req info handler mw =
     (case Interceptor now ctx req info handler mw of
        (r, mw') \<Rightarrow>
          (case instantCalls now ctxs req info handler mw' of
             (rs, mw'') \<Rightarrow> (r # rs, mw'')))"

text \<open>
  Concrete inputs: a context whose incoming metadata has the given entries
  (\<^verbatim>\<open>metadata.Pairs\<close>), a handler that succeeds, a claim set with the three claims
  well typed, and a validator that accepts one token only.
\<close>

definition mdOf :: "(string \<times> string list) list \<Rightarrow> MD" where
  "mdOf kvs k = (case map_of kvs k of None \<Rightarrow> [] | Some vs \<Rightarrow> vs)"

definition callCtx :: "(string \<times> string list) list \<Rightarrow> Context" where
  "callCtx kvs = \<lparr>incomingMD = Some (mdOf kvs), ctxValues = Map.empty\<rparr>"

definition okHandler :: "(unit, unit, 'w) UnaryHandler" where
  "okHandler ctx req w = (Inr (), w)"

definition claimsOf :: "string \<Rightarrow> string list \<Rightarrow> string list \<Rightarrow> MapClaims" where
  "claimsOf sub roles permissions =
     [''sub'' \<mapsto> AString sub, ''roles'' \<mapsto> AStrings roles,
      ''permissions'' \<mapsto> AStrings permissions]"

definition onlyToken :: "string \<Rightarrow> MapClaims \<Rightarrow> JWTValidator" where
  "onlyToken tok claims t = (if t = tok then Inr claims else Inl ''token is malformed'')"

text \<open>
  A state whose caller table holds an entry for a caller: a limiter with the
  given rate and burst and a struct last used at the given time, stored under
  the caller's identity.
\<close>

definition withCaller ::
  "string \<Rightarrow> int \<Rightarrow> int \<Rightarrow> int \<Rightarrow> MethodRateLimiterInterceptor \<Rightarrow> MethodRateLimiterInterceptor" where
  "withCaller userID r b t m =
     (case allocLimiter r b m of
        (p, m) \<Rightarrow>
          (case allocUser \<lparr>limiter = p, lastUsed = t\<rparr> m of
             (u, m) \<Rightarrow> m\<lparr>perUserLimiters := (userID, u) # perUserLimiters m\<rparr>))"

section \<open>Facts about the model\<close>

lemmas auth_defs =
  AuthInterceptor_def FromIncomingContext_def Get_def HasPrefix_def sliceFrom_def
  assertString_def assertStrings_def WithValue_def

lemmas limiter_defs =
  Interceptor_def perUserTier_def Allow_def allowAt_def refill_def NewLimiter_def
  NewMethodRateLimiterInterceptor_def emptyStore_def allocLimiter_def allocUser_def
  SetMethodLimit_def SetPerUserLimit_def methodTierLimiter_def perUserEntry_def
  touchUser_def GetUserID_def FromIncomingContext_def Get_def UserIDKey_def

lemmas input_defs = mdOf_def callCtx_def okHandler_def claimsOf_def onlyToken_def withCaller_def

subsection \<open>The token bucket\<close>

lemma refill_le_burst: "refill now l \<le> lim_burst l * Second"
  by (simp add: refill_def)

lemma refill_NewLimiter: "0 \<le> r \<Longrightarrow> refill now (NewLimiter r b) = b * Second"
  by (simp add: refill_def NewLimiter_def)

lemma fst_allowAt: "fst (allowAt now l) = (Second \<le> refill now l)"
  by (simp add: allowAt_def Let_def)

text \<open>No time passes between two calls at the same instant: a token taken stays taken.\<close>

lemma refill_after_allowAt:
  assumes "fst (allowAt now l)"
  shows "refill now (snd (allowAt now l)) = refill now l - Second"
proof -
  from assms have ok: "Second \<le> refill now l"
    by (simp add: fst_allowAt)
  then have s: "snd (allowAt now l)
      = l\<lparr>lim_tokens := refill now l - Second, lim_last := max now (lim_last l)\<rparr>"
    by (simp add: allowAt_def Let_def)
  have "max 0 (now - max now (lim_last l)) = 0" by simp
  then have "refill now (snd (allowAt now l))
      = min (lim_burst l * Second) (refill now l - Second)"
    by (simp add: s refill_def [of now "l\<lparr>lim_tokens := refill now l - Second,
          lim_last := max now (lim_last l)\<rparr>"])
  with refill_le_burst [of now l] show ?thesis by simp
qed

subsection \<open>\<open>Allow\<close> through a pointer\<close>

lemma Allow_frame:
  "methodLimiters (snd (Allow now p m)) = methodLimiters m"
  "defaultLimiter (snd (Allow now p m)) = defaultLimiter m"
  "perUserLimiters (snd (Allow now p m)) = perUserLimiters m"
  "perUserRate (snd (Allow now p m)) = perUserRate m"
  "perUserBurst (snd (Allow now p m)) = perUserBurst m"
  "userObjs (snd (Allow now p m)) = userObjs m"
  "nextLimiter (snd (Allow now p m)) = nextLimiter m"
  "nextUser (snd (Allow now p m)) = nextUser m"
  "a \<noteq> p \<Longrightarrow> limiterObjs (snd (Allow now p m)) a = limiterObjs m a"
  by (simp_all add: Allow_def split: prod.splits)

lemma limiterObjs_Allow:
  "limiterObjs (snd (Allow now p m)) p = snd (allowAt now (limiterObjs m p))"
  by (simp add: Allow_def split: prod.splits)

lemma fst_Allow: "fst (Allow now p m) = (Second \<le> refill now (limiterObjs m p))"
  by (simp add: Allow_def split: prod.splits) (metis fst_allowAt fst_conv)

lemma refill_after_Allow:
  "fst (Allow now p m) \<Longrightarrow>
   refill now (limiterObjs (snd (Allow now p m)) p) = refill now (limiterObjs m p) - Second"
  using refill_after_allowAt [of now "limiterObjs m p"]
  by (simp add: limiterObjs_Allow fst_Allow fst_allowAt)

text \<open>A rejected \<open>Allow\<close> changes nothing, the limiter it was asked of included.\<close>

lemma Allow_rejects_unchanged: "\<not> fst (Allow now p m) \<Longrightarrow> snd (Allow now p m) = m"
  by (simp add: Allow_def allowAt_def Let_def split: if_splits)

lemma Allow_admits: "fst (Allow now p m) \<Longrightarrow> Allow now p m = (True, snd (Allow now p m))"
  by (cases "Allow now p m") simp

lemma methodTierLimiter_Allow:
  "methodTierLimiter (snd (Allow now p m)) method = methodTierLimiter m method"
  by (simp add: methodTierLimiter_def Allow_frame)

lemma New_fields:
  "methodLimiters (NewMethodRateLimiterInterceptor r b) = Map.empty"
  "defaultLimiter (NewMethodRateLimiterInterceptor r b) = 0"
  "perUserRate (NewMethodRateLimiterInterceptor r b) = 0"
  "perUserLimiters (NewMethodRateLimiterInterceptor r b) = []"
  "limiterObjs (NewMethodRateLimiterInterceptor r b) 0 = NewLimiter r b"
  by (simp_all add: NewMethodRateLimiterInterceptor_def allocLimiter_def emptyStore_def)

subsection \<open>The caller table is never written\<close>

lemma perUserEntry_table:
  "perUserLimiters (snd (perUserEntry userID now m)) = perUserLimiters m"
  by (simp add: perUserEntry_def allocLimiter_def allocUser_def split: option.splits)

lemma perUserTier_table:
  "perUserLimiters (fst (snd (perUserTier now ctx req handler (m, w)))) = perUserLimiters m"
proof (cases "0 < perUserRate m \<and> GetUserID ctx \<noteq> []")
  case False
  then show ?thesis
    by (auto simp add: perUserTier_def Let_def split: prod.splits)
next
  case True
  obtain u m1 where e: "perUserEntry (GetUserID ctx) now m = (u, m1)"
    by (cases "perUserEntry (GetUserID ctx) now m")
  obtain ok m2 where
    a: "Allow now (limiter (userObjs (touchUser u now m1) u)) (touchUser u now m1) = (ok, m2)"
    by (cases "Allow now (limiter (userObjs (touchUser u now m1) u)) (touchUser u now m1)")
  have "perUserLimiters m1 = perUserLimiters m"
    using perUserEntry_table [of "GetUserID ctx" now m] e by simp
  moreover have "perUserLimiters (touchUser u now m1) = perUserLimiters m1"
    by (simp add: touchUser_def)
  moreover have "perUserLimiters m2 = perUserLimiters (touchUser u now m1)"
    using Allow_frame(3) [of now "limiter (userObjs (touchUser u now m1) u)" "touchUser u now m1"] a
    by simp
  ultimately have "perUserLimiters m2 = perUserLimiters m" by simp
  with True e a show ?thesis
    by (simp add: perUserTier_def Let_def split: prod.splits)
qed

lemma Interceptor_table:
  "perUserLimiters (fst (snd (Interceptor now ctx req info handler (m, w)))) = perUserLimiters m"
proof -
  obtain ok m1 where a: "Allow now (defaultLimiter m) m = (ok, m1)"
    by (cases "Allow now (defaultLimiter m) m")
  obtain ok2 m2 where b: "Allow now (methodTierLimiter m1 (FullMethod info)) m1 = (ok2, m2)"
    by (cases "Allow now (methodTierLimiter m1 (FullMethod info)) m1")
  have 1: "perUserLimiters m1 = perUserLimiters m"
    using Allow_frame(3) [of now "defaultLimiter m" m] a by simp
  have 2: "perUserLimiters m2 = perUserLimiters m1"
    using Allow_frame(3) [of now "methodTierLimiter m1 (FullMethod info)" m1] b by simp
  show ?thesis
    using a b 1 2 perUserTier_table [of now ctx req handler m2 w]
    by (simp add: Interceptor_def)
qed

text \<open>
  C1. With the per-caller tier on (rate 1, burst 1), a first call from \<^verbatim>\<open>u1\<close> is
  admitted and the caller table still has no entry for \<^verbatim>\<open>u1\<close> afterwards: the
  struct built for the call (object 0) is never stored, and the next call from
  \<^verbatim>\<open>u1\<close> builds another one (object 1). The claim wants the first evaluation to
  insert one entry that every later call resolves to.
\<close>

theorem first_call_stores_no_entry:
  "fst (Interceptor 0 (callCtx [(''user_id'', [''u1''])]) () \<lparr>FullMethod = ''/svc/M''\<rparr> okHandler
          (SetPerUserLimit 1 1 (NewMethodRateLimiterInterceptor 100 100), ())) = Inr ()
   \<and> map_of (perUserLimiters (fst (snd
          (Interceptor 0 (callCtx [(''user_id'', [''u1''])]) () \<lparr>FullMethod = ''/svc/M''\<rparr> okHandler
             (SetPerUserLimit 1 1 (NewMethodRateLimiterInterceptor 100 100), ()))))) ''u1'' = None
   \<and> fst (perUserEntry ''u1'' 0 (SetPerUserLimit 1 1 (NewMethodRateLimiterInterceptor 100 100))) = 0
   \<and> fst (perUserEntry ''u1'' 0 (fst (snd
          (Interceptor 0 (callCtx [(''user_id'', [''u1''])]) () \<lparr>FullMethod = ''/svc/M''\<rparr> okHandler
             (SetPerUserLimit 1 1 (NewMethodRateLimiterInterceptor 100 100), ()))))) = 1"
  by (simp add: limiter_defs input_defs)

text \<open>
  C6. Per-caller template rate 1 and burst 1, the default limiter far from
  exhausted (burst 100): three instantaneous calls from \<^verbatim>\<open>u1\<close>, \<^verbatim>\<open>u2\<close>, \<^verbatim>\<open>u1\<close>
  are all admitted. The claim wants the second call of \<^verbatim>\<open>u1\<close> rejected with
  ResourceExhausted; each call gets a limiter of its own with a full bucket.
\<close>

theorem second_call_of_caller_admitted:
  "fst (instantCalls 0
      [callCtx [(''user_id'', [''u1''])], callCtx [(''user_id'', [''u2''])],
       callCtx [(''user_id'', [''u1''])]]
      () \<lparr>FullMethod = ''/svc/M''\<rparr> okHandler
      (SetPerUserLimit 1 1 (NewMethodRateLimiterInterceptor 100 100), ()))
   = [Inr (), Inr (), Inr ()]"
  by (simp add: limiter_defs input_defs)

subsection \<open>The sweeper\<close>

lemma cleanupTick_changes_nothing: "cleanupTick now m = m"
  by (simp add: cleanupTick_def Let_def)

lemma cleanupOldUsers_changes_nothing: "cleanupOldUsers ticks m = m"
  by (induction ticks arbitrary: m) (simp_all add: cleanupTick_changes_nothing)

text \<open>
  C2. A caller last seen at time 0 is stale at minute 16 when the maximal idle age
  is 15 minutes: the scan collects it. The tick still leaves it in the table,
  because a non-empty scan result makes the loop body \<^verbatim>\<open>continue\<close> before the
  delete pass. The claim wants the entry absent after the tick.
\<close>

theorem cleanupTick_keeps_stale_entry:
  "staleUsers (16 * Minute)
     (emptyStore\<lparr>perUserLimiters := [(''u1'', 0)], maxAge := 15 * Minute\<rparr>) = [''u1'']
   \<and> map_of (perUserLimiters (cleanupTick (16 * Minute)
        (emptyStore\<lparr>perUserLimiters := [(''u1'', 0)], maxAge := 15 * Minute\<rparr>))) ''u1''
     = Some 0"
  by (simp add: cleanupTick_def staleUsers_def emptyStore_def)

subsection \<open>The order of the tiers\<close>

text \<open>
  C3. A call that the global tier rejects leaves the whole state as it was: no
  limiter of the method tier or of the caller tier has lost a token, and the
  handler has not run. A call that the method tier rejects has taken the one
  token of the global tier and nothing else: the state is the one after the
  global \<open>Allow\<close>, in which the caller table, the caller objects and every
  limiter other than the default one are as before.
\<close>

theorem admission_short_circuit:
  "(\<not> fst (Allow now (defaultLimiter m) m) \<longrightarrow>
      Interceptor now ctx req info handler (m, w)
        = (Inl (Status ResourceExhausted ''global rate limit exceeded''), m, w))
   \<and> (fst (Allow now (defaultLimiter m) m)
        \<and> \<not> fst (Allow now (methodTierLimiter m (FullMethod info))
                   (snd (Allow now (defaultLimiter m) m))) \<longrightarrow>
      Interceptor now ctx req info handler (m, w)
        = (Inl (Status ResourceExhausted ''method rate limit exceeded''),
           snd (Allow now (defaultLimiter m) m), w)
      \<and> userObjs (snd (Allow now (defaultLimiter m) m)) = userObjs m
      \<and> perUserLimiters (snd (Allow now (defaultLimiter m) m)) = perUserLimiters m
      \<and> (\<forall>a. a \<noteq> defaultLimiter m \<longrightarrow>
            limiterObjs (snd (Allow now (defaultLimiter m) m)) a = limiterObjs m a))"
proof (intro conjI impI)
  assume g: "\<not> fst (Allow now (defaultLimiter m) m)"
  obtain ok m1 where a: "Allow now (defaultLimiter m) m = (ok, m1)"
    by (cases "Allow now (defaultLimiter m) m")
  from g a have "\<not> ok" by simp
  moreover from g a Allow_rejects_unchanged [of now "defaultLimiter m" m] have "m1 = m" by simp
  ultimately show "Interceptor now ctx req info handler (m, w)
        = (Inl (Status ResourceExhausted ''global rate limit exceeded''), m, w)"
    using a by (simp add: Interceptor_def)
next
  assume h: "fst (Allow now (defaultLimiter m) m)
        \<and> \<not> fst (Allow now (methodTierLimiter m (FullMethod info))
                   (snd (Allow now (defaultLimiter m) m)))"
  obtain ok m1 where a: "Allow now (defaultLimiter m) m = (ok, m1)"
    by (cases "Allow now (defaultLimiter m) m")
  obtain ok2 m2 where b: "Allow now (methodTierLimiter m1 (FullMethod info)) m1 = (ok2, m2)"
    by (cases "Allow now (methodTierLimiter m1 (FullMethod info)) m1")
  have mt: "methodTierLimiter m1 (FullMethod info) = methodTierLimiter m (FullMethod info)"
    using methodTierLimiter_Allow [of now "defaultLimiter m" m "FullMethod info"] a by simp
  from h a have ok: "ok" by simp
  from h a b mt have nok2: "\<not> ok2" by simp
  from b nok2 Allow_rejects_unchanged [of now "methodTierLimiter m1 (FullMethod info)" m1]
  have "m2 = m1" by simp
  with a b ok nok2 show "Interceptor now ctx req info handler (m, w)
        = (Inl (Status ResourceExhausted ''method rate limit exceeded''),
           snd (Allow now (defaultLimiter m) m), w)"
    by (simp add: Interceptor_def)
qed (simp_all add: Allow_frame)

text \<open>
  The theorem at two concrete states: a default limiter with burst 0 (the global
  tier rejects), and a default limiter with burst 2 with a method limiter of
  burst 0 for the called method (the method tier rejects).
\<close>

theorem admission_short_circuit_witness:
  "\<not> fst (Allow 0 (defaultLimiter (NewMethodRateLimiterInterceptor 2 0))
            (NewMethodRateLimiterInterceptor 2 0))
   \<and> Interceptor 0 (callCtx []) () \<lparr>FullMethod = ''/svc/M''\<rparr> okHandler
        (NewMethodRateLimiterInterceptor 2 0, ())
      = (Inl (Status ResourceExhausted ''global rate limit exceeded''),
         NewMethodRateLimiterInterceptor 2 0, ())
   \<and> fst (Allow 0 (defaultLimiter (SetMethodLimit ''/svc/M'' 5 0 (NewMethodRateLimiterInterceptor 2 2)))
            (SetMethodLimit ''/svc/M'' 5 0 (NewMethodRateLimiterInterceptor 2 2)))
   \<and> \<not> fst (Allow 0
        (methodTierLimiter (SetMethodLimit ''/svc/M'' 5 0 (NewMethodRateLimiterInterceptor 2 2))
           (FullMethod \<lparr>FullMethod = ''/svc/M''\<rparr>))
        (snd (Allow 0 (defaultLimiter (SetMethodLimit ''/svc/M'' 5 0 (NewMethodRateLimiterInterceptor 2 2)))
            (SetMethodLimit ''/svc/M'' 5 0 (NewMethodRateLimiterInterceptor 2 2)))))
   \<and> Interceptor 0 (callCtx []) () \<lparr>FullMethod = ''/svc/M''\<rparr> okHandler
        (SetMethodLimit ''/svc/M'' 5 0 (NewMethodRateLimiterInterceptor 2 2), ())
      = (Inl (Status ResourceExhausted ''method rate limit exceeded''),
         snd (Allow 0 (defaultLimiter (SetMethodLimit ''/svc/M'' 5 0 (NewMethodRateLimiterInterceptor 2 2)))
            (SetMethodLimit ''/svc/M'' 5 0 (NewMethodRateLimiterInterceptor 2 2))), ())
   \<and> limiterObjs
        (snd (Allow 0 (defaultLimiter (SetMethodLimit ''/svc/M'' 5 0 (NewMethodRateLimiterInterceptor 2 2)))
            (SetMethodLimit ''/svc/M'' 5 0 (NewMethodRateLimiterInterceptor 2 2)))) 1
      = NewLimiter 5 0"
proof -
  let ?ma = "NewMethodRateLimiterInterceptor 2 0"
  let ?mb = "SetMethodLimit ''/svc/M'' 5 0 (NewMethodRateLimiterInterceptor 2 2)"
  let ?info = "\<lparr>FullMethod = ''/svc/M''\<rparr>"
  have ha: "\<not> fst (Allow 0 (defaultLimiter ?ma) ?ma)"
    by (simp add: limiter_defs)
  have hb: "fst (Allow 0 (defaultLimiter ?mb) ?mb)
      \<and> \<not> fst (Allow 0 (methodTierLimiter ?mb (FullMethod ?info))
                 (snd (Allow 0 (defaultLimiter ?mb) ?mb)))"
    by (simp add: limiter_defs)
  have d: "defaultLimiter ?mb = 0" "limiterObjs ?mb 1 = NewLimiter 5 0"
    by (simp_all add: limiter_defs)
  note ta = admission_short_circuit [where now = 0 and m = ?ma and ctx = "callCtx []"
      and req = "()" and info = ?info and handler = okHandler and w = "()",
      THEN conjunct1, rule_format, OF ha]
  note tb = admission_short_circuit [where now = 0 and m = ?mb and ctx = "callCtx []"
      and req = "()" and info = ?info and handler = okHandler and w = "()",
      THEN conjunct2, rule_format, OF hb]
  from tb have tb1: "Interceptor 0 (callCtx []) () ?info okHandler (?mb, ())
      = (Inl (Status ResourceExhausted ''method rate limit exceeded''),
         snd (Allow 0 (defaultLimiter ?mb) ?mb), ())"
    by simp
  from tb d have tb2: "limiterObjs (snd (Allow 0 (defaultLimiter ?mb) ?mb)) 1 = NewLimiter 5 0"
    by simp
  from ha ta hb tb1 tb2 show ?thesis
    by (intro conjI) simp_all
qed

text \<open>
  C8. The limiter of the method tier is the default limiter for a method that the
  table does not have, and the table's limiter for a method that it has; after
  \<^verbatim>\<open>SetMethodLimit\<close> it is the limiter just created, a new bucket with the given
  rate and burst. Once the global tier has admitted a call, that limiter's
  \<open>Allow\<close> decides between the rejection of the method tier and the per-caller
  tier.
\<close>

theorem method_tier_resolution:
  "(methodLimiters m (FullMethod info) = None \<longrightarrow>
      methodTierLimiter m (FullMethod info) = defaultLimiter m)
   \<and> (methodLimiters m (FullMethod info) = Some p \<longrightarrow>
      methodTierLimiter m (FullMethod info) = p)
   \<and> methodTierLimiter (SetMethodLimit name r b m) name = nextLimiter m
   \<and> limiterObjs (SetMethodLimit name r b m) (nextLimiter m) = NewLimiter r b
   \<and> (fst (Allow now (defaultLimiter m) m) \<longrightarrow>
      Interceptor now ctx req info handler (m, w)
        = (case Allow now (methodTierLimiter m (FullMethod info))
                  (snd (Allow now (defaultLimiter m) m)) of
             (ok, m2) \<Rightarrow>
               if ok then perUserTier now ctx req handler (m2, w)
               else (Inl (Status ResourceExhausted ''method rate limit exceeded''), m2, w)))"
proof (intro conjI impI)
  assume g: "fst (Allow now (defaultLimiter m) m)"
  obtain ok m1 where a: "Allow now (defaultLimiter m) m = (ok, m1)"
    by (cases "Allow now (defaultLimiter m) m")
  have mt: "methodTierLimiter m1 (FullMethod info) = methodTierLimiter m (FullMethod info)"
    using methodTierLimiter_Allow [of now "defaultLimiter m" m "FullMethod info"] a by simp
  from g a have "ok" by simp
  with a mt show "Interceptor now ctx req info handler (m, w)
        = (case Allow now (methodTierLimiter m (FullMethod info))
                  (snd (Allow now (defaultLimiter m) m)) of
             (ok, m2) \<Rightarrow>
               if ok then perUserTier now ctx req handler (m2, w)
               else (Inl (Status ResourceExhausted ''method rate limit exceeded''), m2, w))"
    by (simp add: Interceptor_def split: prod.splits)
qed (simp_all add: methodTierLimiter_def SetMethodLimit_def allocLimiter_def)

text \<open>
  The theorem at a state with a limiter for \<^verbatim>\<open>/svc/A\<close> and none for
  \<^verbatim>\<open>/svc/B\<close>, and a call to \<^verbatim>\<open>/svc/A\<close> that the global tier admits.
\<close>

theorem method_tier_resolution_witness:
  "methodLimiters (SetMethodLimit ''/svc/A'' 1 1 (NewMethodRateLimiterInterceptor 2 2)) ''/svc/B''
     = None
   \<and> methodTierLimiter (SetMethodLimit ''/svc/A'' 1 1 (NewMethodRateLimiterInterceptor 2 2)) ''/svc/B''
     = defaultLimiter (SetMethodLimit ''/svc/A'' 1 1 (NewMethodRateLimiterInterceptor 2 2))
   \<and> methodLimiters (SetMethodLimit ''/svc/A'' 1 1 (NewMethodRateLimiterInterceptor 2 2)) ''/svc/A''
     = Some 1
   \<and> methodTierLimiter (SetMethodLimit ''/svc/A'' 1 1 (NewMethodRateLimiterInterceptor 2 2)) ''/svc/A''
     = 1
   \<and> limiterObjs (SetMethodLimit ''/svc/A'' 1 1 (NewMethodRateLimiterInterceptor 2 2)) 1
     = NewLimiter 1 1
   \<and> fst (Allow 0 (defaultLimiter (SetMethodLimit ''/svc/A'' 1 1 (NewMethodRateLimiterInterceptor 2 2)))
        (SetMethodLimit ''/svc/A'' 1 1 (NewMethodRateLimiterInterceptor 2 2)))
   \<and> Interceptor 0 (callCtx []) () \<lparr>FullMethod = ''/svc/A''\<rparr> okHandler
        (SetMethodLimit ''/svc/A'' 1 1 (NewMethodRateLimiterInterceptor 2 2), ())
     = (case Allow 0 1
               (snd (Allow 0 0 (SetMethodLimit ''/svc/A'' 1 1 (NewMethodRateLimiterInterceptor 2 2)))) of
          (ok, m2) \<Rightarrow>
            if ok then perUserTier 0 (callCtx []) () okHandler (m2, ())
            else (Inl (Status ResourceExhausted ''method rate limit exceeded''), m2, ()))"
proof -
  let ?new = "NewMethodRateLimiterInterceptor 2 2"
  let ?m = "SetMethodLimit ''/svc/A'' 1 1 ?new"
  have n: "nextLimiter ?new = 1" "defaultLimiter ?m = 0"
    by (simp_all add: limiter_defs)
  have h1: "methodLimiters ?m (FullMethod \<lparr>FullMethod = ''/svc/B''\<rparr>) = None"
    by (simp add: limiter_defs)
  have h2: "methodLimiters ?m (FullMethod \<lparr>FullMethod = ''/svc/A''\<rparr>) = Some 1"
    by (simp add: limiter_defs)
  have h3: "fst (Allow 0 (defaultLimiter ?m) ?m)"
    by (simp add: limiter_defs)
  note tB = method_tier_resolution [where m = ?m and info = "\<lparr>FullMethod = ''/svc/B''\<rparr>"]
  note tA = method_tier_resolution [where m = ?m and info = "\<lparr>FullMethod = ''/svc/A''\<rparr>"
      and p = 1 and now = 0 and ctx = "callCtx []" and req = "()" and handler = okHandler
      and w = "()"]
  note tS = method_tier_resolution [where m = ?new and name = "''/svc/A''" and r = 1 and b = 1]
  have c1: "methodTierLimiter ?m ''/svc/B'' = defaultLimiter ?m"
    using tB [THEN conjunct1, rule_format, OF h1] by simp
  have c2: "methodTierLimiter ?m ''/svc/A'' = 1"
    using tA [THEN conjunct2, THEN conjunct1, rule_format, OF h2] by simp
  have c3: "limiterObjs ?m 1 = NewLimiter 1 1"
    using tS [THEN conjunct2, THEN conjunct2, THEN conjunct2, THEN conjunct1] n by simp
  have c4: "Interceptor 0 (callCtx []) () \<lparr>FullMethod = ''/svc/A''\<rparr> okHandler (?m, ())
     = (case Allow 0 1 (snd (Allow 0 0 ?m)) of
          (ok, m2) \<Rightarrow>
            if ok then perUserTier 0 (callCtx []) () okHandler (m2, ())
            else (Inl (Status ResourceExhausted ''method rate limit exceeded''), m2, ()))"
    using tA [THEN conjunct2, THEN conjunct2, THEN conjunct2, THEN conjunct2, rule_format, OF h3]
      c2 n
    by simp
  from h1 h2 h3 c1 c2 c3 c4 show ?thesis
    by (intro conjI) simp_all
qed

text \<open>
  A call to a method without a limiter of its own, with the per-caller tier off,
  asks the default limiter twice: once as the global tier and once as the method
  tier. It is admitted only when two tokens are there, and then takes both.
\<close>

lemma perUserTier_off:
  "\<not> 0 < perUserRate m \<Longrightarrow>
   perUserTier now ctx req handler (m, w) = (case handler ctx req w of (r, w') \<Rightarrow> (r, m, w'))"
  by (simp add: perUserTier_def)

lemma fallback_call:
  assumes none: "methodLimiters m (FullMethod info) = None"
    and off: "\<not> 0 < perUserRate m"
  shows "Interceptor now ctx req info handler (m, w) =
    (if refill now (limiterObjs m (defaultLimiter m)) < Second
     then (Inl (Status ResourceExhausted ''global rate limit exceeded''), m, w)
     else if refill now (limiterObjs m (defaultLimiter m)) < 2 * Second
     then (Inl (Status ResourceExhausted ''method rate limit exceeded''),
           snd (Allow now (defaultLimiter m) m), w)
     else (case handler ctx req w of
             (r, w') \<Rightarrow>
               (r, snd (Allow now (defaultLimiter m) (snd (Allow now (defaultLimiter m) m))), w')))"
proof -
  let ?d = "defaultLimiter m"
  obtain ok m1 where a: "Allow now ?d m = (ok, m1)"
    by (cases "Allow now ?d m")
  obtain ok2 m2 where b: "Allow now ?d m1 = (ok2, m2)"
    by (cases "Allow now ?d m1")
  have ok: "ok = (Second \<le> refill now (limiterObjs m ?d))"
    using fst_Allow [of now ?d m] a by simp
  have mt: "methodTierLimiter m1 (FullMethod info) = ?d"
    using methodTierLimiter_Allow [of now ?d m "FullMethod info"] a none
    by (simp add: methodTierLimiter_def)
  have off1: "\<not> 0 < perUserRate m2"
    using Allow_frame(4) [of now ?d m] Allow_frame(4) [of now ?d m1] a b off by simp
  show ?thesis
  proof (cases ok)
    case False
    with a Allow_rejects_unchanged [of now ?d m] have "m1 = m" by simp
    with False a ok show ?thesis by (simp add: Interceptor_def)
  next
    case True
    have r1: "refill now (limiterObjs m1 ?d) = refill now (limiterObjs m ?d) - Second"
      using refill_after_Allow [of now ?d m] True a by simp
    have ok2: "ok2 = (Second \<le> refill now (limiterObjs m1 ?d))"
      using fst_Allow [of now ?d m1] b by simp
    show ?thesis
    proof (cases ok2)
      case False
      with b Allow_rejects_unchanged [of now ?d m1] have "m2 = m1" by simp
      with False True a b ok ok2 r1 mt show ?thesis by (simp add: Interceptor_def)
    next
      case t2: True
      with True a b ok ok2 r1 mt off1 show ?thesis
        by (simp add: Interceptor_def perUserTier_off)
    qed
  qed
qed

text \<open>
  C7. Default limiter of rate 2 and burst 2, no method limiter, three calls at
  time 0 that a succeeding handler would serve. The second call is rejected
  with ResourceExhausted by the global tier, where the claim wants it admitted
  and only the third rejected: the first call has taken both tokens, one at the
  global tier and one at the method tier, which asks the same default limiter.
\<close>

theorem default_burst_two_second_call_rejected:
  "fst (instantCalls 0 [callCtx [], callCtx [], callCtx []] () \<lparr>FullMethod = ''/svc/M''\<rparr>
          okHandler (NewMethodRateLimiterInterceptor 2 2, ())) ! 1
   = Inl (Status ResourceExhausted ''global rate limit exceeded'')"
  by (simp add: limiter_defs input_defs)

text \<open>
  The same at any one time, with any contexts and any handler: only the first of
  the three calls reaches the handler.
\<close>

lemma default_burst_two_three_calls:
  "fst (instantCalls now [c1, c2, c3] req info handler (NewMethodRateLimiterInterceptor 2 2, w))
   = [fst (handler c1 req w),
      Inl (Status ResourceExhausted ''global rate limit exceeded''),
      Inl (Status ResourceExhausted ''global rate limit exceeded'')]"
proof -
  let ?m0 = "NewMethodRateLimiterInterceptor 2 2"
  let ?m1 = "snd (Allow now 0 ?m0)"
  let ?m2 = "snd (Allow now 0 ?m1)"
  obtain r w' where h: "handler c1 req w = (r, w')"
    by (cases "handler c1 req w")
  have b0: "refill now (limiterObjs ?m0 0) = 2 * Second"
    using refill_NewLimiter [of 2 now 2] by (simp add: New_fields)
  then have a0: "fst (Allow now 0 ?m0)" by (simp add: fst_Allow)
  have b1: "refill now (limiterObjs ?m1 0) = Second"
    using refill_after_Allow [OF a0] b0 by simp
  then have a1: "fst (Allow now 0 ?m1)" by (simp add: fst_Allow)
  have b2: "refill now (limiterObjs ?m2 0) = 0"
    using refill_after_Allow [OF a1] b1 by simp
  have f2: "methodLimiters ?m2 (FullMethod info) = None" "\<not> 0 < perUserRate ?m2"
    "defaultLimiter ?m2 = 0"
    by (simp_all add: Allow_frame New_fields)
  have call1: "Interceptor now c1 req info handler (?m0, w) = (r, ?m2, w')"
    using fallback_call [of ?m0 info now c1 req handler w] b0 h
    by (simp add: New_fields)
  have rej: "Interceptor now c req info handler (?m2, w')
      = (Inl (Status ResourceExhausted ''global rate limit exceeded''), ?m2, w')" for c
    using fallback_call [OF f2(1) f2(2), of now c req handler w'] b2 f2(3) by simp
  show ?thesis
    by (simp add: call1 rej h)
qed

text \<open>
  With a limiter of its own for the method (rate 2, burst 2) the same three
  calls fare as the global limit of 2 promises: two are admitted and the third
  is rejected. Only the fallback charges the global bucket twice.
\<close>

lemma method_limiter_path_admits_two:
  "fst (instantCalls 0 [callCtx [], callCtx [], callCtx []] () \<lparr>FullMethod = ''/svc/M''\<rparr>
          okHandler (SetMethodLimit ''/svc/M'' 2 2 (NewMethodRateLimiterInterceptor 2 2), ()))
   = [Inr (), Inr (), Inl (Status ResourceExhausted ''global rate limit exceeded'')]"
  by (simp add: limiter_defs input_defs)

text \<open>
  With a default burst of at most 1 and no method limiter the bucket never holds
  the two tokens a call needs: no call reaches the handler, at any time.
\<close>

lemma default_burst_one_serves_no_call:
  assumes "methodLimiters m (FullMethod info) = None"
    and "\<not> 0 < perUserRate m"
    and "lim_burst (limiterObjs m (defaultLimiter m)) \<le> 1"
  shows "fst (Interceptor now ctx req info handler (m, w))
           = Inl (Status ResourceExhausted ''global rate limit exceeded'')
       \<or> fst (Interceptor now ctx req info handler (m, w))
           = Inl (Status ResourceExhausted ''method rate limit exceeded'')"
proof -
  have "refill now (limiterObjs m (defaultLimiter m)) < 2 * Second"
    using refill_le_burst [of now "limiterObjs m (defaultLimiter m)"] assms(3) by simp
  then show ?thesis
    using fallback_call [OF assms(1) assms(2), of now ctx req handler w] by simp
qed

subsection \<open>Authentication\<close>

text \<open>The four rejections of the interceptor: each is Unauthenticated, before the handler.\<close>

lemma AuthInterceptor_rejections:
  "(FromIncomingContext ctx = None \<longrightarrow>
      AuthInterceptor jwtValidator ctx req info handler w
        = (Inl (Status Unauthenticated ''missing metadata''), w))
   \<and> (FromIncomingContext ctx = Some md \<and> Get md ''authorization'' = [] \<longrightarrow>
      AuthInterceptor jwtValidator ctx req info handler w
        = (Inl (Status Unauthenticated ''missing authorization header''), w))
   \<and> (FromIncomingContext ctx = Some md \<and> Get md ''authorization'' = tok # rest
        \<and> \<not> HasPrefix tok ''Bearer'' \<longrightarrow>
      AuthInterceptor jwtValidator ctx req info handler w
        = (Inl (Status Unauthenticated ''invalid authorization format''), w))
   \<and> (FromIncomingContext ctx = Some md \<and> Get md ''authorization'' = tok # rest
        \<and> HasPrefix tok ''Bearer'' \<and> sliceFrom tok 7 = Inr t \<and> jwtValidator t = Inl err \<longrightarrow>
      AuthInterceptor jwtValidator ctx req info handler w
        = (Inl (Status Unauthenticated (''invalid token: '' @ err)), w))"
  by (simp add: AuthInterceptor_def)

text \<open>The two rejections of the per-caller tier, before the handler.\<close>

lemma perUserTier_rejections:
  "(0 < perUserRate m \<and> GetUserID ctx = '''' \<longrightarrow>
      perUserTier now ctx req handler (m, w)
        = (Inl (Status InvalidArgument ''user_id is required''), m, w))
   \<and> (0 < perUserRate m \<and> GetUserID ctx \<noteq> ''''
        \<and> perUserEntry (GetUserID ctx) now m = (u, m1)
        \<and> Allow now (limiter (userObjs (touchUser u now m1) u)) (touchUser u now m1)
            = (False, m2) \<longrightarrow>
      perUserTier now ctx req handler (m, w)
        = (Inl (Status ResourceExhausted ''per-user rate limit exceeded''), m2, w))"
  by (simp add: perUserTier_def)

text \<open>
  C4. The authorization value \<^verbatim>\<open>BearerXtok\<close> does not start with the scheme
  prefix \<^verbatim>\<open>"Bearer "\<close>, yet it is not rejected: the source tests the prefix
  \<^verbatim>\<open>"Bearer"\<close> (6 bytes) and strips 7, so the validator is consulted with
  \<^verbatim>\<open>tok\<close> and, as it accepts that token, the handler runs. The claim wants an
  Unauthenticated error with the validator not invoked.
\<close>

theorem AuthInterceptor_accepts_wrong_separator:
  "\<not> HasPrefix ''BearerXtok'' ''Bearer ''
   \<and> AuthInterceptor (onlyToken ''tok'' (claimsOf ''u1'' [] []))
        (callCtx [(''authorization'', [''BearerXtok''])]) req info handler w
     = handler
         (WithValue (WithValue (WithValue (callCtx [(''authorization'', [''BearerXtok''])])
            ''user_id'' (AString ''u1'')) ''roles'' (AStrings [])) ''permissions'' (AStrings []))
         req w"
  by (simp add: auth_defs input_defs)

text \<open>
  C9. The authorization value \<^verbatim>\<open>Bearer\<close> is a malformed credential (it lacks the
  separating space), and the failure table assigns Unauthenticated to it. The
  call does not end in a status of that category, nor of any other, whatever the
  message: it ends in the panic of the slice expression \<^verbatim>\<open>token[7:]\<close>.
\<close>

theorem AuthInterceptor_malformed_without_status:
  "fst (AuthInterceptor jwtValidator (callCtx [(''authorization'', [''Bearer''])])
          req info handler w) \<noteq> Inl (Status code msg)"
  by (simp add: auth_defs input_defs)

text \<open>
  C10. The interceptor panics on two inputs that the claim names. For the
  authorization value \<^verbatim>\<open>Bearer\<close> the slice \<^verbatim>\<open>token[7:]\<close> is out of range
  (length 6), with any validator. For a well-formed value whose token the
  validator accepts with an empty claim set, the type assertion on \<^verbatim>\<open>sub\<close>
  fails. In both cases the handler is not reached.
\<close>

theorem AuthInterceptor_panics:
  "AuthInterceptor jwtValidator (callCtx [(''authorization'', [''Bearer''])]) req info handler w
     = (Inl (Panic (SliceBoundsOutOfRange 7 6)), w)
   \<and> AuthInterceptor (onlyToken ''tok'' Map.empty)
        (callCtx [(''authorization'', [''Bearer tok''])]) req info handler w
     = (Inl (Panic (InterfaceConversion ''sub'')), w)"
  by (simp add: auth_defs input_defs)

subsection \<open>The identity of the per-caller tier\<close>

text \<open>
  C5, as stated, fails: a call with the credential \<^verbatim>\<open>Bearer tok\<close>, which the
  validator accepts with subject \<^verbatim>\<open>u1\<close>, and no \<^verbatim>\<open>user_id\<close> entry in its
  metadata passes authentication and is then rejected by the per-caller tier for
  want of an identity. The tier did not evaluate the identity \<^verbatim>\<open>u1\<close>.
\<close>

theorem admission_does_not_read_subject:
  "fst (Chain (onlyToken ''tok'' (claimsOf ''u1'' [] [])) 0
          (callCtx [(''authorization'', [''Bearer tok''])]) () \<lparr>FullMethod = ''/svc/M''\<rparr>
          okHandler (SetPerUserLimit 1 1 (NewMethodRateLimiterInterceptor 100 100), ()))
   = Inl (Status InvalidArgument ''user_id is required'')"
  by (simp add: Chain_def auth_defs limiter_defs input_defs)

text \<open>
  C5, amended. For a call that authentication accepts with the subject \<open>s\<close>,
  the admission stage runs with a context in which \<open>s\<close> is the context value at
  the key \<^verbatim>\<open>user_id\<close> and the incoming metadata is as before. When the global
  and the method tier admit the call and the per-caller tier is on, the identity
  of that tier is the one \<open>GetUserID\<close> reads from the metadata of the call, not
  \<open>s\<close>: an empty metadata identity ends the call with InvalidArgument; otherwise
  the caller entry is resolved for the metadata identity (the stored entry when
  the table has one under it) and the \<open>Allow\<close> of that entry's limiter decides
  between the handler and ResourceExhausted.
\<close>

theorem admission_identity_is_metadata:
  assumes md: "FromIncomingContext ctx = Some md"
    and auth: "Get md ''authorization'' = tok # rest"
    and pre: "HasPrefix tok ''Bearer''"
    and sl: "sliceFrom tok 7 = Inr t"
    and val: "jwtValidator t = Inr claims"
    and sub: "claims ''sub'' = Some (AString s)"
    and roles: "claims ''roles'' = Some (AStrings rs)"
    and perms: "claims ''permissions'' = Some (AStrings ps)"
    and glob: "Allow now (defaultLimiter m) m = (True, m1)"
    and meth: "Allow now (methodTierLimiter m1 (FullMethod info)) m1 = (True, m2)"
    and on: "0 < perUserRate m"
  shows "Chain jwtValidator now ctx req info handler (m, w)
     = Interceptor now
         (WithValue (WithValue (WithValue ctx ''user_id'' (AString s))
            ''roles'' (AStrings rs)) ''permissions'' (AStrings ps))
         req info handler (m, w)
   \<and> Value (WithValue (WithValue (WithValue ctx ''user_id'' (AString s))
            ''roles'' (AStrings rs)) ''permissions'' (AStrings ps)) ''user_id''
     = Some (AString s)
   \<and> GetUserID (WithValue (WithValue (WithValue ctx ''user_id'' (AString s))
            ''roles'' (AStrings rs)) ''permissions'' (AStrings ps))
     = GetUserID ctx
   \<and> (GetUserID ctx = '''' \<longrightarrow>
        Chain jwtValidator now ctx req info handler (m, w)
          = (Inl (Status InvalidArgument ''user_id is required''), m2, w))
   \<and> (GetUserID ctx \<noteq> ''''
        \<and> perUserEntry (GetUserID ctx) now m2 = (user, m3)
        \<and> Allow now (limiter (userObjs (touchUser user now m3) user)) (touchUser user now m3)
            = (ok, m4) \<longrightarrow>
        Chain jwtValidator now ctx req info handler (m, w)
          = (if ok
             then (case handler (WithValue (WithValue (WithValue ctx ''user_id'' (AString s))
                      ''roles'' (AStrings rs)) ''permissions'' (AStrings ps)) req w of
                     (r, w') \<Rightarrow> (r, m4, w'))
             else (Inl (Status ResourceExhausted ''per-user rate limit exceeded''), m4, w)))
   \<and> (map_of (perUserLimiters m) (GetUserID ctx) = Some u \<longrightarrow>
        perUserEntry (GetUserID ctx) now m2 = (u, m2))"
proof -
  let ?ctx = "WithValue (WithValue (WithValue ctx ''user_id'' (AString s))
            ''roles'' (AStrings rs)) ''permissions'' (AStrings ps)"
  have v: "Value ?ctx ''user_id'' = Some (AString s)"
    by (simp add: WithValue_def Value_def)
  have g: "GetUserID ?ctx = GetUserID ctx"
    by (simp add: WithValue_def GetUserID_def FromIncomingContext_def)
  have chain: "Chain jwtValidator now ctx req info handler (m, w)
      = Interceptor now ?ctx req info handler (m, w)"
    using md auth pre sl val sub roles perms
    by (simp add: Chain_def AuthInterceptor_def assertString_def assertStrings_def)
  have tiers: "Interceptor now ?ctx req info handler (m, w)
      = perUserTier now ?ctx req handler (m2, w)"
    using glob meth by (simp add: Interceptor_def)
  have on2: "0 < perUserRate m2"
    using Allow_frame(4) [of now "defaultLimiter m" m]
      Allow_frame(4) [of now "methodTierLimiter m1 (FullMethod info)" m1] glob meth on
    by simp
  have tab: "perUserLimiters m2 = perUserLimiters m"
    using Allow_frame(3) [of now "defaultLimiter m" m]
      Allow_frame(3) [of now "methodTierLimiter m1 (FullMethod info)" m1] glob meth
    by simp
  have c3: "GetUserID ctx = '''' \<longrightarrow>
        Chain jwtValidator now ctx req info handler (m, w)
          = (Inl (Status InvalidArgument ''user_id is required''), m2, w)"
    using on2 by (simp add: chain tiers perUserTier_def g)
  have c4: "GetUserID ctx \<noteq> ''''
        \<and> perUserEntry (GetUserID ctx) now m2 = (user, m3)
        \<and> Allow now (limiter (userObjs (touchUser user now m3) user)) (touchUser user now m3)
            = (ok, m4) \<longrightarrow>
        Chain jwtValidator now ctx req info handler (m, w)
          = (if ok
             then (case handler ?ctx req w of (r, w') \<Rightarrow> (r, m4, w'))
             else (Inl (Status ResourceExhausted ''per-user rate limit exceeded''), m4, w))"
    using on2 by (simp add: chain tiers perUserTier_def g Let_def)
  have c5: "map_of (perUserLimiters m) (GetUserID ctx) = Some u \<longrightarrow>
        perUserEntry (GetUserID ctx) now m2 = (u, m2)"
    by (simp add: perUserEntry_def tab)
  from chain v g c3 c4 c5 show ?thesis by (intro conjI)
qed

text \<open>
  The theorem at two calls with the credential \<^verbatim>\<open>Bearer tok\<close> and the subject
  \<^verbatim>\<open>u1\<close>. The first has no \<^verbatim>\<open>user_id\<close> metadata and is refused for want of
  an identity. The second has the metadata identity \<^verbatim>\<open>u2\<close>, in a state whose
  table holds an exhausted entry for \<^verbatim>\<open>u2\<close> and none for \<^verbatim>\<open>u1\<close>: it is
  rejected by the limiter of \<^verbatim>\<open>u2\<close>.
\<close>

theorem admission_identity_is_metadata_witness:
  "HasPrefix ''Bearer tok'' ''Bearer''
   \<and> sliceFrom ''Bearer tok'' 7 = Inr ''tok''
   \<and> onlyToken ''tok'' (claimsOf ''u1'' [] []) ''tok'' = Inr (claimsOf ''u1'' [] [])
   \<and> claimsOf ''u1'' [] [] ''sub'' = Some (AString ''u1'')
   \<and> 0 < perUserRate (SetPerUserLimit 1 1 (NewMethodRateLimiterInterceptor 100 100))
   \<and> GetUserID (callCtx [(''authorization'', [''Bearer tok''])]) = ''''
   \<and> fst (Chain (onlyToken ''tok'' (claimsOf ''u1'' [] [])) 0
          (callCtx [(''authorization'', [''Bearer tok''])]) () \<lparr>FullMethod = ''/svc/M''\<rparr>
          okHandler (SetPerUserLimit 1 1 (NewMethodRateLimiterInterceptor 100 100), ()))
       = Inl (Status InvalidArgument ''user_id is required'')
   \<and> GetUserID (callCtx [(''authorization'', [''Bearer tok'']), (''user_id'', [''u2''])]) = ''u2''
   \<and> map_of (perUserLimiters
          (withCaller ''u2'' 1 0 0 (SetPerUserLimit 1 1 (NewMethodRateLimiterInterceptor 100 100))))
          ''u2'' = Some 0
   \<and> map_of (perUserLimiters
          (withCaller ''u2'' 1 0 0 (SetPerUserLimit 1 1 (NewMethodRateLimiterInterceptor 100 100))))
          ''u1'' = None
   \<and> fst (Chain (onlyToken ''tok'' (claimsOf ''u1'' [] [])) 0
          (callCtx [(''authorization'', [''Bearer tok'']), (''user_id'', [''u2''])]) ()
          \<lparr>FullMethod = ''/svc/M''\<rparr> okHandler
          (withCaller ''u2'' 1 0 0 (SetPerUserLimit 1 1 (NewMethodRateLimiterInterceptor 100 100)),
           ()))
       = Inl (Status ResourceExhausted ''per-user rate limit exceeded'')"
proof -
  let ?v = "onlyToken ''tok'' (claimsOf ''u1'' [] [])"
  let ?i = "\<lparr>FullMethod = ''/svc/M''\<rparr>"
  let ?cA = "callCtx [(''authorization'', [''Bearer tok''])]"
  let ?cB = "callCtx [(''authorization'', [''Bearer tok'']), (''user_id'', [''u2''])]"
  let ?mA = "SetPerUserLimit 1 1 (NewMethodRateLimiterInterceptor 100 100)"
  let ?mB = "withCaller ''u2'' 1 0 0 ?mA"
  let ?gA = "snd (Allow 0 (defaultLimiter ?mA) ?mA)"
  let ?hA = "snd (Allow 0 (methodTierLimiter ?gA (FullMethod ?i)) ?gA)"
  let ?gB = "snd (Allow 0 (defaultLimiter ?mB) ?mB)"
  let ?hB = "snd (Allow 0 (methodTierLimiter ?gB (FullMethod ?i)) ?gB)"
  let ?uB = "fst (perUserEntry (GetUserID ?cB) 0 ?hB)"
  let ?eB = "snd (perUserEntry (GetUserID ?cB) 0 ?hB)"
  let ?tB = "touchUser ?uB 0 ?eB"
  have mdA: "FromIncomingContext ?cA = Some (mdOf [(''authorization'', [''Bearer tok''])])"
    by (simp add: FromIncomingContext_def callCtx_def)
  have mdB: "FromIncomingContext ?cB
      = Some (mdOf [(''authorization'', [''Bearer tok'']), (''user_id'', [''u2''])])"
    by (simp add: FromIncomingContext_def callCtx_def)
  have auA: "Get (mdOf [(''authorization'', [''Bearer tok''])]) ''authorization''
      = ''Bearer tok'' # []"
    by (simp add: Get_def mdOf_def)
  have auB: "Get (mdOf [(''authorization'', [''Bearer tok'']), (''user_id'', [''u2''])])
      ''authorization'' = ''Bearer tok'' # []"
    by (simp add: Get_def mdOf_def)
  have pre: "HasPrefix ''Bearer tok'' ''Bearer''" by (simp add: HasPrefix_def)
  have sl: "sliceFrom ''Bearer tok'' 7 = Inr ''tok''" by (simp add: sliceFrom_def)
  have val: "?v ''tok'' = Inr (claimsOf ''u1'' [] [])" by (simp add: onlyToken_def)
  have sub: "claimsOf ''u1'' [] [] ''sub'' = Some (AString ''u1'')"
    and roles: "claimsOf ''u1'' [] [] ''roles'' = Some (AStrings [])"
    and perms: "claimsOf ''u1'' [] [] ''permissions'' = Some (AStrings [])"
    by (simp_all add: claimsOf_def)
  have onA: "0 < perUserRate ?mA" and onB: "0 < perUserRate ?mB"
    by (simp_all add: limiter_defs input_defs)
  have globA: "Allow 0 (defaultLimiter ?mA) ?mA = (True, ?gA)"
    by (rule Allow_admits) (simp add: limiter_defs)
  have methA: "Allow 0 (methodTierLimiter ?gA (FullMethod ?i)) ?gA = (True, ?hA)"
    by (rule Allow_admits) (simp add: limiter_defs)
  have globB: "Allow 0 (defaultLimiter ?mB) ?mB = (True, ?gB)"
    by (rule Allow_admits) (simp add: limiter_defs input_defs)
  have methB: "Allow 0 (methodTierLimiter ?gB (FullMethod ?i)) ?gB = (True, ?hB)"
    by (rule Allow_admits) (simp add: limiter_defs input_defs)
  have idA: "GetUserID ?cA = ''''"
    by (simp add: GetUserID_def FromIncomingContext_def Get_def UserIDKey_def callCtx_def mdOf_def)
  have idB: "GetUserID ?cB = ''u2''"
    by (simp add: GetUserID_def FromIncomingContext_def Get_def UserIDKey_def callCtx_def mdOf_def)
  have tabB: "map_of (perUserLimiters ?mB) ''u2'' = Some 0"
    "map_of (perUserLimiters ?mB) ''u1'' = None"
    by (simp_all add: limiter_defs input_defs)
  have rejB: "\<not> fst (Allow 0 (limiter (userObjs ?tB ?uB)) ?tB)"
    by (simp add: limiter_defs input_defs)
  have hypB: "GetUserID ?cB \<noteq> ''''
      \<and> perUserEntry (GetUserID ?cB) 0 ?hB = (?uB, ?eB)
      \<and> Allow 0 (limiter (userObjs ?tB ?uB)) ?tB
          = (fst (Allow 0 (limiter (userObjs ?tB ?uB)) ?tB),
             snd (Allow 0 (limiter (userObjs ?tB ?uB)) ?tB))"
    using idB by simp
  note tA = admission_identity_is_metadata [where jwtValidator = ?v and t = "''tok''"
      and claims = "claimsOf ''u1'' [] []" and now = 0 and req = "()" and info = ?i
      and handler = okHandler and w = "()" and m = ?mA and ?m1.0 = ?gA and ?m2.0 = ?hA,
      OF mdA auA pre sl val sub roles perms globA methA onA]
  note tB = admission_identity_is_metadata [where jwtValidator = ?v and t = "''tok''"
      and claims = "claimsOf ''u1'' [] []" and now = 0 and req = "()" and info = ?i
      and handler = okHandler and w = "()" and m = ?mB and ?m1.0 = ?gB and ?m2.0 = ?hB
      and user = ?uB and ?m3.0 = ?eB
      and ok = "fst (Allow 0 (limiter (userObjs ?tB ?uB)) ?tB)"
      and ?m4.0 = "snd (Allow 0 (limiter (userObjs ?tB ?uB)) ?tB)",
      OF mdB auB pre sl val sub roles perms globB methB onB]
  have rA: "fst (Chain ?v 0 ?cA () ?i okHandler (?mA, ()))
      = Inl (Status InvalidArgument ''user_id is required'')"
    using tA [THEN conjunct2, THEN conjunct2, THEN conjunct2, THEN conjunct1, rule_format, OF idA]
    by simp
  have rB: "fst (Chain ?v 0 ?cB () ?i okHandler (?mB, ()))
      = Inl (Status ResourceExhausted ''per-user rate limit exceeded'')"
    using tB [THEN conjunct2, THEN conjunct2, THEN conjunct2, THEN conjunct2, THEN conjunct1,
        rule_format, OF hypB] rejB
    by simp
  from pre sl val sub onA idA rA idB tabB rB show ?thesis
    by (intro conjI)
qed

end
